theory Spec2Isabelle
  imports Main
begin

section \<open>Values, keys and property names\<close>

text \<open>
  JavaScript values as far as the reconciler looks at them: keys, prop values and the
  names under which a plain object used as a dictionary stores them. Numbers are the
  integers; an object is known by its identity only.
\<close>

datatype jsval = JUndefined | JNull | JBool bool | JNum int | JStr string | JObj nat

type_synonym props = "(string \<times> jsval) list"

fun truthy :: "jsval \<Rightarrow> bool" where
  "truthy JUndefined = False"
| "truthy JNull = False"
| "truthy (JBool b) = b"
| "truthy (JNum n) = (n \<noteq> 0)"
| "truthy (JStr s) = (s \<noteq> [])"
| "truthy (JObj _) = True"

definition digit_char :: "nat \<Rightarrow> char" where
  "digit_char d = ''0123456789'' ! d"

fun nat_to_string :: "nat \<Rightarrow> string" where
  "nat_to_string n = (if n < 10 then [digit_char n] else nat_to_string (n div 10) @ [digit_char (n mod 10)])"

declare nat_to_string.simps [simp del]

definition int_to_string :: "int \<Rightarrow> string" where
  "int_to_string i = (if i < 0 then CHR ''-'' # nat_to_string (nat (- i)) else nat_to_string (nat i))"

text \<open>The property name a value is coerced to by \<^verbatim>\<open>obj[value]\<close>.\<close>

fun property_name :: "jsval \<Rightarrow> string" where
  "property_name JUndefined = ''undefined''"
| "property_name JNull = ''null''"
| "property_name (JBool b) = (if b then ''true'' else ''false'')"
| "property_name (JNum n) = int_to_string n"
| "property_name (JStr s) = s"
| "property_name (JObj _) = ''[object Object]''"

section \<open>Fibers\<close>

text \<open>
  A function component is a function object: its identity, its \<^verbatim>\<open>memo\<close> flag and its
  \<^verbatim>\<open>shouldUpdate\<close> comparator (both set by \<^verbatim>\<open>memo\<close> in h.ts). A fiber's type is a host
  tag or a function component.
\<close>

datatype fc = FC (fc_id: nat) (fc_memo: bool)
  (fc_shouldUpdate: "(props option \<Rightarrow> props \<Rightarrow> bool) option")

datatype ftype = Host string | Comp fc

text \<open>A ref is a callback or an object with a \<^verbatim>\<open>current\<close> field; a host node is a handle.\<close>

datatype ref = RefFn nat | RefObj nat

type_synonym handle = nat

text \<open>A hook effect \<^verbatim>\<open>[effect, deps, cleanup]\<close>: the effect and the cleanup registered, if any.\<close>

datatype hook_effect = HookEffect (effect_fn: nat) (cleanup: "nat option")

record hooks =
  list :: "hook_effect list"
  layout :: "hook_effect list"
  effect :: "hook_effect list"

text \<open>
  The tags of \<^verbatim>\<open>TAG\<close> in use. The enum is declared in type.ts, each tag one bit; an
  action's \<^verbatim>\<open>op\<close> is one tag, so the bit tests of commit are tests on the tag, and a
  \<^verbatim>\<open>lane\<close> is the set of the tags whose bit is set.
\<close>

datatype tag = UPDATE | INSERT | MOVE | SVG

text \<open>
  The fiber object with the fields the reconciler reads and writes, an absent field
  being \<open>None\<close> (or \<open>False\<close> for a flag). \<open>props\<close> holds the props other than the
  content of \<^verbatim>\<open>props.children\<close>, which is the field \<open>children\<close> (one child or an array, or
  \<open>None\<close> when absent). The \<^verbatim>\<open>parent\<close> link is passed along by the traversals that follow
  it. An action is \<^verbatim>\<open>{ op, cur, ref }\<close>.
\<close>

datatype fiber = Fiber
  (type: ftype) (props: "props option") (children: "fiber list option") (key: jsval)
  (ref: "ref option") (node: "handle option") (hooks: "hooks option")
  (kids: "fiber list option") (alternate: "fiber option") (child: "fiber option")
  (sibling: "fiber option") (action: "action option") (isComp: bool) (memo: bool)
  (dirty: bool) (lane: "tag set")
and action = Action (op: tag) (cur: "fiber option") (anchor: "fiber option")

text \<open>\<^verbatim>\<open>createVnode\<close> of h.ts: a fresh object with \<^verbatim>\<open>type\<close>, \<^verbatim>\<open>props\<close>, \<^verbatim>\<open>key\<close> and \<^verbatim>\<open>ref\<close>.\<close>

definition createVnode :: "ftype \<Rightarrow> props \<Rightarrow> jsval \<Rightarrow> ref option \<Rightarrow> fiber" where
  "createVnode t p k r = Fiber t (Some p) None k r None None None None None None None False False False {}"

text \<open>\<^verbatim>\<open>clone(a, b)\<close>: \<^verbatim>\<open>b\<close> takes the hooks, ref, node and kids of \<^verbatim>\<open>a\<close>, and \<^verbatim>\<open>a\<close> as alternate.\<close>

definition clone :: "fiber \<Rightarrow> fiber \<Rightarrow> fiber" where
  "clone a b = Fiber (type b) (props b) (children b) (key b) (ref a) (node a) (hooks a) (kids a)
     (Some a) (child b) (sibling b) (action b) (isComp b) (memo b) (dirty b) (lane b)"

section \<open>The host tree\<close>

text \<open>
  The DOM as far as the reconciler reads and edits it: for each handle its node type
  (1 element, 3 text, 8 comment, 11 document fragment), its parent and its child nodes,
  and the next handle that is not in use. The operations follow the DOM standard
  (\<^verbatim>\<open>insertBefore\<close> with no reference node appends, with the node itself as reference
  node it takes the next sibling; inserting a fragment moves its child nodes). Attributes are not part of it: \<^verbatim>\<open>updateElement\<close> is recorded as an event.
\<close>

record dom =
  nodeType :: "handle \<Rightarrow> nat"
  parentNode :: "handle \<Rightarrow> handle option"
  childNodes :: "handle \<Rightarrow> handle list"
  fresh :: handle

definition create_node :: "nat \<Rightarrow> dom \<Rightarrow> handle \<times> dom" where
  "create_node ty d =
     (fresh d, d\<lparr>nodeType := (nodeType d)(fresh d := ty),
                 parentNode := (parentNode d)(fresh d := None),
                 childNodes := (childNodes d)(fresh d := []),
                 fresh := fresh d + 1\<rparr>)"

definition detach_node :: "handle \<Rightarrow> dom \<Rightarrow> dom" where
  "detach_node n d =
     (case parentNode d n of
        None \<Rightarrow> d
      | Some p \<Rightarrow> d\<lparr>parentNode := (parentNode d)(n := None),
                     childNodes := (childNodes d)(p := remove1 n (childNodes d p))\<rparr>)"



datatype error = TypeError | NotFoundError




section \<open>Effects and errors\<close>

text \<open>
  What the reconciler does to the world outside the fibers is recorded as a list of
  events, in the order it happens. Reading a property of \<^verbatim>\<open>undefined\<close> or \<^verbatim>\<open>null\<close> throws a
  TypeError; \<^verbatim>\<open>insertBefore\<close> with a reference node that is not a child throws a
  NotFoundError.
\<close>

datatype event =
    RemoveChild handle
  | Cleanup nat
  | RefCall nat "handle option"
  | RefSet nat "handle option"
  | UpdateElement "handle option" props "props option"
  | CreateNode handle ftype
  | ResetCursor
  | Render fc "props option"

definition then_events :: "error + event list \<Rightarrow> error + event list \<Rightarrow> error + event list" where
  "then_events x y =
     (case x of Inl e \<Rightarrow> Inl e
      | Inr xs \<Rightarrow> (case y of Inl e \<Rightarrow> Inl e | Inr ys \<Rightarrow> Inr (xs @ ys)))"

section \<open>commit.ts: refs and removal\<close>

definition refer :: "ref option \<Rightarrow> handle option \<Rightarrow> event list" where
  "refer r el =
     (case r of None \<Rightarrow> []
      | Some (RefFn f) \<Rightarrow> [RefCall f el]
      | Some (RefObj ob) \<Rightarrow> [RefSet ob el])"

fun kidsRefer_list :: "fiber list \<Rightarrow> event list" where
  "kidsRefer_list [] = []"
| "kidsRefer_list (Fiber t p ch k r n h ks al c sb ac ic m d ln # rest) =
     (case ks of None \<Rightarrow> [] | Some kks \<Rightarrow> kidsRefer_list kks) @ refer r None @ kidsRefer_list rest"

definition kidsRefer :: "fiber list option \<Rightarrow> event list" where
  "kidsRefer ks = (case ks of None \<Rightarrow> [] | Some kks \<Rightarrow> kidsRefer_list kks)"

definition cleanups :: "hook_effect list \<Rightarrow> event list" where
  "cleanups es = concat (map (\<lambda>e. case cleanup e of None \<Rightarrow> [] | Some c \<Rightarrow> [Cleanup c]) es)"

fun removeElement :: "fiber \<Rightarrow> bool \<Rightarrow> error + event list"
  and removeElement_each :: "fiber list \<Rightarrow> bool \<Rightarrow> error + event list" where
  "removeElement (Fiber t p ch k r n h ks al c sb ac ic m d ln) flag =
     then_events
       (if ic then Inr (case h of None \<Rightarrow> [] | Some hs \<Rightarrow> cleanups (list hs))
        else then_events
          (if flag then (case n of None \<Rightarrow> Inl TypeError | Some nd \<Rightarrow> Inr [RemoveChild nd])
           else Inr [])
          (Inr (kidsRefer ks @ refer r None)))
       (case ks of None \<Rightarrow> Inr []
        | Some kks \<Rightarrow> removeElement_each kks (if ic then flag else False))"
| "removeElement_each [] flag = Inr []"
| "removeElement_each (v # vs) flag = then_events (removeElement v flag) (removeElement_each vs flag)"

text \<open>
  Notions for stating what a removal does: the fibers of a subtree (along \<^verbatim>\<open>kids\<close>), its
  topmost host fibers (the fiber itself unless it is a component, else those of its
  kids), the detaching of a fiber's handle, and the cleanups a component fiber has
  registered.
\<close>

fun subtree :: "fiber \<Rightarrow> fiber list"
  and subtree_each :: "fiber list \<Rightarrow> fiber list" where
  "subtree (Fiber t p ch k r n h ks al c sb ac ic m d ln) =
     Fiber t p ch k r n h ks al c sb ac ic m d ln # (case ks of None \<Rightarrow> [] | Some kks \<Rightarrow> subtree_each kks)"
| "subtree_each [] = []"
| "subtree_each (v # vs) = subtree v @ subtree_each vs"



fun is_RemoveChild :: "event \<Rightarrow> bool" where
  "is_RemoveChild (RemoveChild _) = True"
| "is_RemoveChild _ = False"




section \<open>reconcile.ts: the keyed diff\<close>

text \<open>
  An array read \<^verbatim>\<open>xs[i]\<close>: \<open>None\<close> is \<^verbatim>\<open>undefined\<close>, the value out of range. A slot of the
  old array holds a fiber or, once its fiber has been moved, \<^verbatim>\<open>null\<close> (\<open>None\<close>).
\<close>

definition at :: "'a list \<Rightarrow> int \<Rightarrow> 'a option" where
  "at xs i = (if 0 \<le> i \<and> i < int (length xs) then Some (xs ! nat i) else None)"

text \<open>
  \<^verbatim>\<open>aMap\<close> and \<^verbatim>\<open>bMap\<close> are plain objects: a key is stored under its property name, and
  a read that finds no own property falls back on \<^verbatim>\<open>Object.prototype\<close>, whose members are
  not \<^verbatim>\<open>null\<close>. An assignment to \<^verbatim>\<open>__proto__\<close> of a number creates no property.
\<close>

type_synonym jsobj = "(string \<times> int) list"

datatype found = NotFound | Index int | Inherited

definition object_prototype_names :: "string list" where
  "object_prototype_names =
     [''constructor'', ''hasOwnProperty'', ''isPrototypeOf'', ''propertyIsEnumerable'',
      ''toLocaleString'', ''toString'', ''valueOf'', ''__proto__'',
      ''__defineGetter__'', ''__defineSetter__'', ''__lookupGetter__'', ''__lookupSetter__'']"

definition obj_get :: "jsobj \<Rightarrow> jsval \<Rightarrow> found" where
  "obj_get m k =
     (case map_of m (property_name k) of
        Some i \<Rightarrow> Index i
      | None \<Rightarrow> if property_name k \<in> set object_prototype_names then Inherited else NotFound)"

definition obj_set :: "jsobj \<Rightarrow> jsval \<Rightarrow> int \<Rightarrow> jsobj" where
  "obj_set m k i = (if property_name k = ''__proto__'' then m else (property_name k, i) # m)"

text \<open>\<^verbatim>\<open>===\<close> on two types: the same tag, or the same function object.\<close>

fun same_type :: "ftype \<Rightarrow> ftype \<Rightarrow> bool" where
  "same_type (Host s) (Host t) = (s = t)"
| "same_type (Comp f) (Comp g) = (fc_id f = fc_id g)"
| "same_type _ _ = False"

definition same :: "fiber \<Rightarrow> fiber \<Rightarrow> bool" where
  "same a b = (same_type (type a) (type b) \<and> key a = key b)"

text \<open>
  The local variables of \<^verbatim>\<open>diff\<close>, with the calls of \<^verbatim>\<open>removeElement\<close> it has made
  (\<open>removed\<close>) and their events (\<open>effects\<close>). \<^verbatim>\<open>clone\<close> writes into the object in \<^verbatim>\<open>bCh\<close>,
  here the list element is replaced; the two lists are taken to hold different objects.
\<close>

record diff_state =
  aCh :: "fiber option list"
  bCh :: "fiber list"
  aHead :: int
  bHead :: int
  aTail :: int
  bTail :: int
  aMap :: jsobj
  bMap :: jsobj
  temp :: "action list"
  actions :: "action list"
  removed :: "fiber list"
  effects :: "event list"

definition diff_init :: "fiber list \<Rightarrow> fiber list \<Rightarrow> diff_state" where
  "diff_init a b =
     \<lparr>aCh = map Some a, bCh = b, aHead = 0, bHead = 0,
      aTail = int (length a) - 1, bTail = int (length b) - 1,
      aMap = [], bMap = [], temp = [], actions = [], removed = [], effects = []\<rparr>"

function tail_phase :: "diff_state \<Rightarrow> error + diff_state" where
  "tail_phase s =
     (if aHead s \<le> aTail s \<and> bHead s \<le> bTail s then
        (case (at (aCh s) (aTail s), at (bCh s) (bTail s)) of
           (Some (Some a), Some b) \<Rightarrow>
             if \<not> same a b then Inr s
             else tail_phase (s\<lparr>bCh := (bCh s)[nat (bTail s) := clone a b],
                                temp := temp s @ [Action UPDATE None None],
                                aTail := aTail s - 1, bTail := bTail s - 1\<rparr>)
         | _ \<Rightarrow> Inl TypeError)
      else Inr s)"
  by pat_completeness auto
termination
  by (relation "measure (\<lambda>s. nat (aTail s - aHead s + 1))") auto

function head_phase :: "diff_state \<Rightarrow> error + diff_state" where
  "head_phase s =
     (if aHead s \<le> aTail s \<and> bHead s \<le> bTail s then
        (case (at (aCh s) (aHead s), at (bCh s) (bHead s)) of
           (Some (Some a), Some b) \<Rightarrow>
             if \<not> same a b then Inr s
             else head_phase (s\<lparr>bCh := (bCh s)[nat (bHead s) := clone a b],
                                actions := actions s @ [Action UPDATE None None],
                                aHead := aHead s + 1, bHead := bHead s + 1\<rparr>)
         | _ \<Rightarrow> Inl TypeError)
      else Inr s)"
  by pat_completeness auto
termination
  by (relation "measure (\<lambda>s. nat (aTail s - aHead s + 1))") auto

function index_a :: "fiber option list \<Rightarrow> int \<Rightarrow> int \<Rightarrow> jsobj \<Rightarrow> error + jsobj" where
  "index_a a i hi m =
     (if i \<le> hi then
        (case at a i of
           Some (Some f) \<Rightarrow> index_a a (i + 1) hi (if truthy (key f) then obj_set m (key f) i else m)
         | _ \<Rightarrow> Inl TypeError)
      else Inr m)"
  by pat_completeness auto
termination
  by (relation "measure (\<lambda>(a, i, hi, m). nat (hi - i + 1))") auto

function index_b :: "fiber list \<Rightarrow> int \<Rightarrow> int \<Rightarrow> jsobj \<Rightarrow> error + jsobj" where
  "index_b b i hi m =
     (if i \<le> hi then
        (case at b i of
           Some f \<Rightarrow> index_b b (i + 1) hi (if truthy (key f) then obj_set m (key f) i else m)
         | None \<Rightarrow> Inl TypeError)
      else Inr m)"
  by pat_completeness auto
termination
  by (relation "measure (\<lambda>(b, i, hi, m). nat (hi - i + 1))") auto

definition index_phase :: "diff_state \<Rightarrow> error + diff_state" where
  "index_phase s =
     (case index_a (aCh s) (aHead s) (aTail s) (aMap s) of
        Inl e \<Rightarrow> Inl e
      | Inr am \<Rightarrow>
          (case index_b (bCh s) (bHead s) (bTail s) (bMap s) of
             Inl e \<Rightarrow> Inl e
           | Inr bm \<Rightarrow> Inr (s\<lparr>aMap := am, bMap := bm\<rparr>)))"

text \<open>
  The middle pass. A removal is a call of \<^verbatim>\<open>removeElement\<close> with its default flag; an
  INSERT or MOVE carries the old head element as anchor, which is \<^verbatim>\<open>undefined\<close> past the
  end of the old array.
\<close>

definition remove_step :: "diff_state \<Rightarrow> fiber \<Rightarrow> error + diff_state" where
  "remove_step s a =
     (case removeElement a True of
        Inl e \<Rightarrow> Inl e
      | Inr ev \<Rightarrow> Inr (s\<lparr>removed := removed s @ [a], effects := effects s @ ev,
                        aHead := aHead s + 1\<rparr>))"

definition insert_step :: "diff_state \<Rightarrow> fiber option \<Rightarrow> fiber option \<Rightarrow> diff_state" where
  "insert_step s bElm aElm =
     s\<lparr>actions := actions s @ [Action INSERT bElm aElm], bHead := bHead s + 1\<rparr>"

definition update_step :: "diff_state \<Rightarrow> fiber \<Rightarrow> fiber \<Rightarrow> diff_state" where
  "update_step s a b =
     s\<lparr>bCh := (bCh s)[nat (bHead s) := clone a b],
       actions := actions s @ [Action UPDATE None None],
       aHead := aHead s + 1, bHead := bHead s + 1\<rparr>"

definition move_step :: "diff_state \<Rightarrow> int \<Rightarrow> fiber \<Rightarrow> fiber \<Rightarrow> fiber \<Rightarrow> diff_state" where
  "move_step s i m a b =
     s\<lparr>bCh := (bCh s)[nat (bHead s) := clone m b],
       actions := actions s @ [Action MOVE (Some m) (Some a)],
       aCh := (aCh s)[nat i := None],
       bHead := bHead s + 1\<rparr>"

fun is_null :: "'a option option \<Rightarrow> bool" where
  "is_null (Some None) = True"
| "is_null _ = False"

datatype step = Done | Next diff_state | Throw error

definition middle_step :: "diff_state \<Rightarrow> step" where
  "middle_step s =
     (if aHead s \<le> aTail s \<or> bHead s \<le> bTail s then
        (let aElm = at (aCh s) (aHead s); bElm = at (bCh s) (bHead s) in
         if is_null aElm then Next (s\<lparr>aHead := aHead s + 1\<rparr>)
         else if bTail s + 1 \<le> bHead s then
           (case aElm of
              Some (Some a) \<Rightarrow> (case remove_step s a of Inl e \<Rightarrow> Throw e | Inr s' \<Rightarrow> Next s')
            | _ \<Rightarrow> Throw TypeError)
         else if aTail s + 1 \<le> aHead s then
           Next (insert_step s bElm (case aElm of Some (Some a) \<Rightarrow> Some a | _ \<Rightarrow> None))
         else
           (case (aElm, bElm) of
              (Some (Some a), Some b) \<Rightarrow>
                if same a b then Next (update_step s a b)
                else
                  (let foundB = obj_get (bMap s) (key a); foundA = obj_get (aMap s) (key b) in
                   if foundB = NotFound then
                     (case remove_step s a of Inl e \<Rightarrow> Throw e | Inr s' \<Rightarrow> Next s')
                   else if foundA = NotFound then Next (insert_step s (Some b) (Some a))
                   else
                     (case foundA of
                        Index i \<Rightarrow>
                          (case at (aCh s) i of
                             Some (Some m) \<Rightarrow> Next (move_step s i m a b)
                           | _ \<Rightarrow> Throw TypeError)
                      | _ \<Rightarrow> Throw TypeError))
            | _ \<Rightarrow> Throw TypeError))
      else Done)"

definition middle_measure :: "diff_state \<Rightarrow> nat" where
  "middle_measure s = nat (int (length (aCh s)) - aHead s) + nat (bTail s - bHead s + 1)"

function middle_phase :: "diff_state \<Rightarrow> error + diff_state" where
  "middle_phase s =
     (case middle_step s of
        Done \<Rightarrow> Inr s
      | Throw e \<Rightarrow> Inl e
      | Next s' \<Rightarrow> middle_phase s')"
  by pat_completeness auto
termination
  by (relation "measure middle_measure")
    (auto simp: middle_step_def middle_measure_def Let_def at_def remove_step_def
      insert_step_def update_step_def move_step_def
      elim!: is_null.elims split: if_splits option.splits sum.splits found.splits prod.splits)

definition and_then :: "error + 'a \<Rightarrow> ('a \<Rightarrow> error + 'b) \<Rightarrow> error + 'b" where
  "and_then x f = (case x of Inl e \<Rightarrow> Inl e | Inr v \<Rightarrow> f v)"

declare tail_phase.simps [simp del] head_phase.simps [simp del] index_a.simps [simp del]
  index_b.simps [simp del] middle_phase.simps [simp del]

definition finish :: "diff_state \<Rightarrow> diff_state" where
  "finish s = s\<lparr>actions := actions s @ rev (temp s)\<rparr>"

text \<open>
  \<^verbatim>\<open>diff(aCh, bCh)\<close>: the final state, whose \<open>actions\<close> is the array returned, whose
  \<open>bCh\<close> is the new list after cloning, and whose \<open>removed\<close> and \<open>effects\<close> are the
  removals done on the way; or the error thrown.
\<close>

definition diff :: "fiber list \<Rightarrow> fiber list \<Rightarrow> error + diff_state" where
  "diff a b =
     and_then (tail_phase (diff_init a b)) (\<lambda>s1.
     and_then (head_phase s1) (\<lambda>s2.
     and_then (index_phase s2) (\<lambda>s3.
     and_then (middle_phase s3) (\<lambda>s4. Inr (finish s4)))))"



section \<open>schedule.ts and the update request\<close>

text \<open>
  A task of the work queue holds a callback, or \<^verbatim>\<open>null\<close> while that callback runs. The
  callbacks the reconciler enqueues are \<^verbatim>\<open>() => reconcile(fiber)\<close> and
  \<^verbatim>\<open>() => side(fiber.hooks.effect)\<close>; the fiber is the one the closure holds.
\<close>

datatype task_callback = ReconcileCb fiber | SideCb fiber

record Task =
  callback :: "task_callback option"

text \<open>A callback of the \<^verbatim>\<open>transitions\<close> queue: \<^verbatim>\<open>flush\<close>, or a function of the caller.\<close>

datatype transition_cb = Flush | Callback nat

text \<open>
  The three ways \<^verbatim>\<open>task\<close> has of getting its \<^verbatim>\<open>cb\<close> called later, and what the host
  offers. \<open>posted\<close> is the list of calls of \<^verbatim>\<open>cb\<close> the host has been asked for and has not
  made yet.
\<close>

datatype channel = Microtask | MessagePort | Timer

record host =
  has_queueMicrotask :: bool
  has_MessageChannel :: bool

record scheduler =
  queue :: "Task list"
  transitions :: "transition_cb list"
  translate :: channel
  posted :: "channel list"

definition task :: "host \<Rightarrow> bool \<Rightarrow> channel" where
  "task env pending =
     (if \<not> pending \<and> has_queueMicrotask env then Microtask
      else if has_MessageChannel env then MessagePort
      else Timer)"

text \<open>\<^verbatim>\<open>cb\<close> of \<^verbatim>\<open>task\<close>: \<^verbatim>\<open>transitions.splice(0, 1).forEach((c) => c())\<close>, with the callbacks it calls.\<close>

definition dispatch :: "scheduler \<Rightarrow> transition_cb list \<times> scheduler" where
  "dispatch st = (take 1 (transitions st), st\<lparr>transitions := drop 1 (transitions st)\<rparr>)"

text \<open>\<^verbatim>\<open>transitions.push(cb) && translate()\<close>: \<^verbatim>\<open>push\<close> returns the new length.\<close>

definition startTransition :: "transition_cb \<Rightarrow> scheduler \<Rightarrow> scheduler" where
  "startTransition cb st =
     (let st' = st\<lparr>transitions := transitions st @ [cb]\<rparr>
      in if length (transitions st') \<noteq> 0 then st'\<lparr>posted := posted st' @ [translate st']\<rparr>
         else st')"

definition schedule :: "task_callback \<Rightarrow> scheduler \<Rightarrow> scheduler" where
  "schedule cb st = startTransition Flush (st\<lparr>queue := queue st @ [\<lparr>callback = Some cb\<rparr>]\<rparr>)"

text \<open>The state of the module when it is loaded: \<^verbatim>\<open>translate = task(false)\<close>.\<close>

definition scheduler_init :: "host \<Rightarrow> scheduler" where
  "scheduler_init env = \<lparr>queue = [], transitions = [], translate = task env False, posted = []\<rparr>"

definition set_dirty :: "bool \<Rightarrow> fiber \<Rightarrow> fiber" where
  "set_dirty b f =
     (case f of Fiber t p ch k r n h ks al c sb ac ic m d ln \<Rightarrow> Fiber t p ch k r n h ks al c sb ac ic m b ln)"

text \<open>\<^verbatim>\<open>update(fiber)\<close> of reconcile.ts.\<close>

definition update :: "fiber \<Rightarrow> scheduler \<Rightarrow> fiber \<times> scheduler" where
  "update f st =
     (if \<not> dirty f then
        (let f' = set_dirty True f in (f', schedule (ReconcileCb f') st))
      else (f, st))"


section \<open>reconcile.ts: capturing a fiber\<close>

text \<open>Assignments to single fields of a fiber.\<close>

definition set_isComp :: "bool \<Rightarrow> fiber \<Rightarrow> fiber" where
  "set_isComp b f =
     (case f of Fiber t p ch k r n h ks al c sb ac ic m d ln \<Rightarrow> Fiber t p ch k r n h ks al c sb ac b m d ln)"

definition set_memo :: "bool \<Rightarrow> fiber \<Rightarrow> fiber" where
  "set_memo b f =
     (case f of Fiber t p ch k r n h ks al c sb ac ic m d ln \<Rightarrow> Fiber t p ch k r n h ks al c sb ac ic b d ln)"

definition set_node :: "handle option \<Rightarrow> fiber \<Rightarrow> fiber" where
  "set_node x f =
     (case f of Fiber t p ch k r n h ks al c sb ac ic m d ln \<Rightarrow> Fiber t p ch k r x h ks al c sb ac ic m d ln)"

definition set_hooks :: "hooks option \<Rightarrow> fiber \<Rightarrow> fiber" where
  "set_hooks x f =
     (case f of Fiber t p ch k r n h ks al c sb ac ic m d ln \<Rightarrow> Fiber t p ch k r n x ks al c sb ac ic m d ln)"

definition set_kids :: "fiber list option \<Rightarrow> fiber \<Rightarrow> fiber" where
  "set_kids x f =
     (case f of Fiber t p ch k r n h ks al c sb ac ic m d ln \<Rightarrow> Fiber t p ch k r n h x al c sb ac ic m d ln)"

definition set_child :: "fiber option \<Rightarrow> fiber \<Rightarrow> fiber" where
  "set_child x f =
     (case f of Fiber t p ch k r n h ks al c sb ac ic m d ln \<Rightarrow> Fiber t p ch k r n h ks al x sb ac ic m d ln)"

definition set_sibling :: "fiber option \<Rightarrow> fiber \<Rightarrow> fiber" where
  "set_sibling x f =
     (case f of Fiber t p ch k r n h ks al c sb ac ic m d ln \<Rightarrow> Fiber t p ch k r n h ks al c x ac ic m d ln)"

definition set_action :: "action option \<Rightarrow> fiber \<Rightarrow> fiber" where
  "set_action x f =
     (case f of Fiber t p ch k r n h ks al c sb ac ic m d ln \<Rightarrow> Fiber t p ch k r n h ks al c sb x ic m d ln)"

definition set_lane :: "tag set \<Rightarrow> fiber \<Rightarrow> fiber" where
  "set_lane x f =
     (case f of Fiber t p ch k r n h ks al c sb ac ic m d ln \<Rightarrow> Fiber t p ch k r n h ks al c sb ac ic m d x)"

text \<open>
  \<^verbatim>\<open>i in b\<close> for a props object \<^verbatim>\<open>b\<close>, and \<^verbatim>\<open>a[i] !== b[i]\<close> for a property \<^verbatim>\<open>i\<close> of \<^verbatim>\<open>b\<close>
  itself. A member inherited from \<^verbatim>\<open>Object.prototype\<close> is no value of \<open>jsval\<close>, so it differs
  from every prop value.
\<close>

definition has_property :: "props \<Rightarrow> string \<Rightarrow> bool" where
  "has_property b i = (i \<in> set (map fst b) \<or> i \<in> set object_prototype_names)"

definition prop_differs :: "props option \<Rightarrow> props \<Rightarrow> string \<Rightarrow> error + bool" where
  "prop_differs a b i =
     (case a of
        None \<Rightarrow> Inl TypeError
      | Some pa \<Rightarrow>
          (case map_of pa i of
             Some x \<Rightarrow> Inr (Some x \<noteq> map_of b i)
           | None \<Rightarrow> Inr (i \<in> set object_prototype_names \<or> map_of b i \<noteq> Some JUndefined)))"

fun differs_loop :: "props option \<Rightarrow> props \<Rightarrow> string list \<Rightarrow> error + bool" where
  "differs_loop a b [] = Inr False"
| "differs_loop a b (i # rest) =
     (case prop_differs a b i of
        Inl e \<Rightarrow> Inl e
      | Inr True \<Rightarrow> Inr True
      | Inr False \<Rightarrow> differs_loop a b rest)"

text \<open>
  The default \<^verbatim>\<open>shouldUpdate(a, b)\<close>; falling off its end returns \<^verbatim>\<open>undefined\<close>, here
  \<open>False\<close>. A \<^verbatim>\<open>for in\<close> over \<^verbatim>\<open>undefined\<close> runs no iteration.
\<close>

definition shouldUpdate :: "props option \<Rightarrow> props \<Rightarrow> error + bool" where
  "shouldUpdate a b =
     (if list_ex (\<lambda>i. \<not> has_property b i) (case a of None \<Rightarrow> [] | Some pa \<Rightarrow> map fst pa)
      then Inr True
      else differs_loop a b (map fst b))"

fun type_memo :: "ftype \<Rightarrow> bool" where
  "type_memo (Host _) = False"
| "type_memo (Comp f) = fc_memo f"

fun type_shouldUpdate :: "ftype \<Rightarrow> (props option \<Rightarrow> props \<Rightarrow> bool) option" where
  "type_shouldUpdate (Host _) = None"
| "type_shouldUpdate (Comp f) = fc_shouldUpdate f"

text \<open>
  \<^verbatim>\<open>isMemo(fiber)\<close>. \<^verbatim>\<open>fiber.alternate?.type\<close> and \<^verbatim>\<open>fiber.alternate?.props\<close> are \<^verbatim>\<open>undefined\<close>
  without an alternate; a comparator of the component itself is a function of the
  caller, its result taken as a truth value.
\<close>

definition isMemo :: "fiber \<Rightarrow> error + bool" where
  "isMemo fiber =
     (if type_memo (type fiber) \<and>
         (case map_option type (alternate fiber) of
            None \<Rightarrow> False
          | Some alt_type \<Rightarrow> same_type (type fiber) alt_type) then
        (case Option.bind (alternate fiber) props of
           None \<Rightarrow> Inr False
         | Some alt_props \<Rightarrow>
             (case (case type_shouldUpdate (type fiber) of
                      Some scu \<Rightarrow> Inr (scu (props fiber) alt_props)
                    | None \<Rightarrow> shouldUpdate (props fiber) alt_props) of
                Inl e \<Rightarrow> Inl e
              | Inr changed \<Rightarrow> Inr (\<not> changed)))
      else Inr False)"

fun isFn :: "ftype \<Rightarrow> bool" where
  "isFn (Host _) = False"
| "isFn (Comp _) = True"


text \<open>
  What a component function returns: nothing (\<^verbatim>\<open>null\<close>, \<^verbatim>\<open>undefined\<close>, \<^verbatim>\<open>false\<close>), a string or
  a number, one vnode or an array of vnodes. \<^verbatim>\<open>simpleVnode\<close> turns a string or number into
  a text vnode (\<^verbatim>\<open>createText\<close> of h.ts), \<^verbatim>\<open>arrayfy\<close> makes a list of it.
\<close>

datatype rendered = Nothing | Text string | Number int | Node fiber | Nodes "fiber list"

definition createText :: "string \<Rightarrow> fiber" where
  "createText v =
     Fiber (Host ''#text'') (Some [(''nodeValue'', JStr v)]) None JUndefined None None None None
       None None None None False False False {}"

fun simpleVnode :: "rendered \<Rightarrow> rendered" where
  "simpleVnode (Text s) = Node (createText s)"
| "simpleVnode (Number n) = Node (createText (int_to_string n))"
| "simpleVnode r = r"

fun arrayfy :: "rendered \<Rightarrow> fiber list" where
  "arrayfy (Node f) = [f]"
| "arrayfy (Nodes fs) = fs"
| "arrayfy _ = []"

definition arrayfy_children :: "fiber list option \<Rightarrow> fiber list" where
  "arrayfy_children ch = (case ch of None \<Rightarrow> [] | Some fs \<Rightarrow> fs)"

text \<open>
  The world a capture or a commit runs in: the host tree and the log of the events so
  far. The call of a component function is the caller's code together with the hooks
  (hook.ts): \<open>invoke\<close> gives what it returns and the hooks it leaves on the fiber.
\<close>

record world =
  tree :: dom
  log :: "event list"

definition emit :: "event list \<Rightarrow> world \<Rightarrow> world" where
  "emit ev w = w\<lparr>log := log w @ ev\<rparr>"

fun apply_removal :: "event \<Rightarrow> dom \<Rightarrow> dom" where
  "apply_removal (RemoveChild n) d = detach_node n d"
| "apply_removal _ d = d"

text \<open>
  The loop of \<^verbatim>\<open>reconcileChidren\<close> over the new children: each takes its action and, under
  an SVG parent, the SVG lane; each but the last gets the next one as sibling. The
  \<^verbatim>\<open>parent\<close> link is not a field here.
\<close>

definition stamp :: "tag set \<Rightarrow> fiber \<Rightarrow> action option \<Rightarrow> fiber" where
  "stamp parent_lane c a =
     (let c1 = set_action a c
      in if SVG \<in> parent_lane then set_lane (insert SVG (lane c1)) c1 else c1)"

fun stamp_all :: "tag set \<Rightarrow> fiber list \<Rightarrow> action list \<Rightarrow> nat \<Rightarrow> fiber list" where
  "stamp_all pl [] acts i = []"
| "stamp_all pl (c # cs) acts i = stamp pl c (at acts (int i)) # stamp_all pl cs acts (Suc i)"

fun link :: "fiber list \<Rightarrow> fiber list" where
  "link [] = []"
| "link [c] = [c]"
| "link (c # d # rest) = (case link (d # rest) of [] \<Rightarrow> [c] | n # ns \<Rightarrow> set_sibling (Some n) c # n # ns)"

definition reconcileChidren :: "world \<Rightarrow> fiber \<Rightarrow> fiber list \<Rightarrow> world \<times> (error + fiber)" where
  "reconcileChidren w fiber new_children =
     (let aCh = (case kids fiber of None \<Rightarrow> [] | Some ks \<Rightarrow> ks)
      in case diff aCh new_children of
           Inl e \<Rightarrow> (w, Inl e)
         | Inr s \<Rightarrow>
             (let w1 = emit (effects s) (w\<lparr>tree := fold apply_removal (effects s) (tree w)\<rparr>);
                  linked = link (stamp_all (lane fiber) (bCh s) (actions s) 0);
                  f1 = set_kids (Some linked) fiber
              in (w1, Inr (case linked of [] \<Rightarrow> f1 | c # _ \<Rightarrow> set_child (Some c) f1))))"

text \<open>
  \<^verbatim>\<open>fragment\<close>: a document fragment holding one comment. \<^verbatim>\<open>createElement\<close> of dom.ts: a new
  node for the tag, then \<^verbatim>\<open>updateElement\<close> with its props. \<^verbatim>\<open>updateHook\<close> resets the hook
  cursor, binds a fragment to a fiber without node, calls the component function and
  diffs what it returns; the module variable \<^verbatim>\<open>currentFiber\<close> it sets is read by the hooks
  only. \<^verbatim>\<open>updateHost\<close> creates the node of a fiber without one and diffs
  \<^verbatim>\<open>props.children\<close>.
\<close>

definition fragment :: "world \<Rightarrow> fiber \<Rightarrow> handle \<times> world" where
  "fragment w fiber =
     (let (f, d1) = create_node 11 (tree w);
          (c, d2) = create_node 8 d1;
          d3 = d2\<lparr>parentNode := (parentNode d2)(c := Some f), childNodes := (childNodes d2)(f := [c])\<rparr>
      in (f, emit [CreateNode f (type fiber), CreateNode c (type fiber)] (w\<lparr>tree := d3\<rparr>)))"

definition createElement :: "world \<Rightarrow> fiber \<Rightarrow> handle \<times> world" where
  "createElement w fiber =
     (let (n, d1) = create_node (if type fiber = Host ''#text'' then 3 else 1) (tree w)
      in (n, emit [CreateNode n (type fiber), UpdateElement (Some n) [] (props fiber)] (w\<lparr>tree := d1\<rparr>)))"

definition updateHook :: "(fiber \<Rightarrow> rendered \<times> hooks option) \<Rightarrow> world \<Rightarrow> fiber \<Rightarrow> world \<times> (error + fiber)" where
  "updateHook invoke w fiber =
     (let w1 = emit [ResetCursor] w;
          (f1, w2) = (case node fiber of
                        Some n \<Rightarrow> (fiber, w1)
                      | None \<Rightarrow> (let (n, w') = fragment w1 fiber in (set_node (Some n) fiber, w')));
          (out, hs) = invoke f1;
          w3 = (case type f1 of Comp c \<Rightarrow> emit [Render c (props f1)] w2 | Host _ \<Rightarrow> w2)
      in reconcileChidren w3 (set_hooks hs f1) (arrayfy (simpleVnode out)))"

definition updateHost :: "world \<Rightarrow> fiber \<Rightarrow> world \<times> (error + fiber)" where
  "updateHost w fiber =
     (let (f1, w1) = (case node fiber of
                        Some n \<Rightarrow> (fiber, w)
                      | None \<Rightarrow>
                          (let f0 = (if type fiber = Host ''svg'' then set_lane (insert SVG (lane fiber)) fiber
                                     else fiber);
                               (n, w') = createElement w f0
                           in (set_node (Some n) f0, w')))
      in case props f1 of
           None \<Rightarrow> (w1, Inl TypeError)
         | Some _ \<Rightarrow> reconcileChidren w1 f1 (arrayfy_children (children f1)))"

text \<open>
  \<^verbatim>\<open>capture(fiber)\<close>. It ends by returning the fiber's first child or by calling
  \<^verbatim>\<open>getSibling(fiber)\<close>, which walks up the \<^verbatim>\<open>parent\<close> links, runs the effects of the hooks
  and commits at a dirty fiber. The result here is the world and the fiber at that point,
  and which of the two ways \<open>capture\<close> goes on; \<^verbatim>\<open>getSibling\<close> itself is not part of it.
\<close>

datatype next_fiber = Child fiber | GetSibling fiber

definition descend :: "world \<times> (error + fiber) \<Rightarrow> world \<times> (error + next_fiber)" where
  "descend r =
     (case r of
        (w, Inl e) \<Rightarrow> (w, Inl e)
      | (w, Inr f) \<Rightarrow> (w, Inr (case child f of Some c \<Rightarrow> Child c | None \<Rightarrow> GetSibling f)))"

definition capture :: "(fiber \<Rightarrow> rendered \<times> hooks option) \<Rightarrow> world \<Rightarrow> fiber \<Rightarrow> world \<times> (error + next_fiber)" where
  "capture invoke w fiber0 =
     (let fiber = set_isComp (isFn (type fiber0)) fiber0
      in if isComp fiber then
           (case isMemo fiber of
              Inl e \<Rightarrow> (w, Inl e)
            | Inr True \<Rightarrow> (w, Inr (GetSibling (set_memo True fiber)))
            | Inr False \<Rightarrow>
                descend (updateHook invoke w (if memo fiber then set_memo False fiber else fiber)))
         else descend (updateHost w fiber))"


section \<open>commit.ts: committing a subtree\<close>







section \<open>Notions and sample inputs for the walker's properties\<close>



definition render_nothing :: "fiber \<Rightarrow> rendered \<times> hooks option" where
  "render_nothing f = (Nothing, None)"

definition empty_dom :: dom where
  "empty_dom = \<lparr>nodeType = (\<lambda>_. 0), parentNode = (\<lambda>_. None), childNodes = (\<lambda>_. []), fresh = 0\<rparr>"

definition empty_world :: world where
  "empty_world = \<lparr>tree = empty_dom, log = []\<rparr>"





section \<open>Properties of the diff\<close>

lemma same_key: "same a b \<Longrightarrow> key a = key b" by (simp add: same_def)






lemma tail_phase_all_same:
  assumes "aHead s = 0" "bHead s = 0" "aTail s = int n - 1" "bTail s = int n - 1"
    and "n \<le> length (aCh s)" "n \<le> length (bCh s)"
    and "\<forall>i<n. \<exists>a. aCh s ! i = Some a \<and> same a (bCh s ! i)"
  shows "\<exists>s'. tail_phase s = Inr s' \<and> aHead s' = 0 \<and> bHead s' = 0 \<and> aTail s' = -1 \<and> bTail s' = -1 \<and>
           temp s' = temp s @ replicate n (Action UPDATE None None) \<and> actions s' = actions s \<and>
           removed s' = removed s \<and> effects s' = effects s \<and> aMap s' = aMap s \<and> bMap s' = bMap s \<and>
           length (bCh s') = length (bCh s) \<and>
           (\<forall>i<length (bCh s). bCh s' ! i = (if i < n then clone (the (aCh s ! i)) (bCh s ! i) else bCh s ! i))"
  using assms
proof (induction n arbitrary: s)
  case 0
  then show ?case by (subst tail_phase.simps) simp
next
  case (Suc n)
  from Suc.prems(7) obtain a where a: "aCh s ! n = Some a" "same a (bCh s ! n)" by blast
  let ?s = "s\<lparr>bCh := (bCh s)[nat (bTail s) := clone a (bCh s ! n)],
               temp := temp s @ [Action UPDATE None None],
               aTail := aTail s - 1, bTail := bTail s - 1\<rparr>"
  have step: "tail_phase s = tail_phase ?s"
    using Suc.prems(1-6) a by (subst tail_phase.simps) (simp add: at_def)
  have "\<exists>s'. tail_phase ?s = Inr s' \<and> aHead s' = 0 \<and> bHead s' = 0 \<and> aTail s' = -1 \<and> bTail s' = -1 \<and>
           temp s' = temp ?s @ replicate n (Action UPDATE None None) \<and> actions s' = actions ?s \<and>
           removed s' = removed ?s \<and> effects s' = effects ?s \<and> aMap s' = aMap ?s \<and> bMap s' = bMap ?s \<and>
           length (bCh s') = length (bCh ?s) \<and>
           (\<forall>i<length (bCh ?s). bCh s' ! i = (if i < n then clone (the (aCh ?s ! i)) (bCh ?s ! i) else bCh ?s ! i))"
  proof (rule Suc.IH)
    show "\<forall>i<n. \<exists>a. aCh ?s ! i = Some a \<and> same a (bCh ?s ! i)"
      using Suc.prems(4,7) by simp
  qed (use Suc.prems in simp_all)
  then show ?case
    unfolding step using Suc.prems(4) a(1)
    by (auto simp: replicate_app_Cons_same nth_list_update less_Suc_eq)
qed

text \<open>
  C2. A child list diffed against a list with the same types and keys in the same order:
  \<open>diff\<close> returns, removes nothing, and its actions are one UPDATE for each child, as
  many as the list is long and in its order; the child at each position takes over the
  state of the old child at that position.
\<close>

theorem diff_unchanged:
  assumes "list_all2 same L L'"
  shows "\<exists>s. diff L L' = Inr s \<and> removed s = [] \<and>
           actions s = replicate (length L) (Action UPDATE None None) \<and>
           bCh s = map2 clone L L'"
proof -
  have len: "length L = length L'" using assms by (rule list_all2_lengthD)
  let ?s0 = "diff_init L L'"
  have "\<exists>s'. tail_phase ?s0 = Inr s' \<and> aHead s' = 0 \<and> bHead s' = 0 \<and> aTail s' = -1 \<and> bTail s' = -1 \<and>
           temp s' = temp ?s0 @ replicate (length L) (Action UPDATE None None) \<and> actions s' = actions ?s0 \<and>
           removed s' = removed ?s0 \<and> effects s' = effects ?s0 \<and> aMap s' = aMap ?s0 \<and> bMap s' = bMap ?s0 \<and>
           length (bCh s') = length (bCh ?s0) \<and>
           (\<forall>i<length (bCh ?s0). bCh s' ! i = (if i < length L then clone (the (aCh ?s0 ! i)) (bCh ?s0 ! i) else bCh ?s0 ! i))"
  proof (rule tail_phase_all_same)
    show "\<forall>i<length L. \<exists>a. aCh ?s0 ! i = Some a \<and> same a (bCh ?s0 ! i)"
      using assms by (simp add: diff_init_def list_all2_conv_all_nth)
  qed (simp_all add: diff_init_def len)
  then obtain s1 where s1: "tail_phase ?s0 = Inr s1" "aHead s1 = 0" "bHead s1 = 0" "aTail s1 = -1" "bTail s1 = -1"
    "temp s1 = replicate (length L) (Action UPDATE None None)" "actions s1 = []" "removed s1 = []"
    "length (bCh s1) = length L'" "\<forall>i<length L'. bCh s1 ! i = clone (L ! i) (L' ! i)"
    by (auto simp: diff_init_def len)
  have b: "bCh s1 = map2 clone L L'"
    using s1(9,10) len by (intro nth_equalityI) simp_all
  have h: "head_phase s1 = Inr s1"
    using s1 by (subst head_phase.simps) simp
  have i: "index_phase s1 = Inr s1"
    using s1 by (simp add: index_phase_def index_a.simps index_b.simps)
  have m: "middle_phase s1 = Inr s1"
    using s1 by (subst middle_phase.simps) (simp add: middle_step_def)
  have "diff L L' = Inr (finish s1)"
    by (simp add: diff_def and_then_def s1(1) h i m)
  moreover have "removed (finish s1) = []" "actions (finish s1) = replicate (length L) (Action UPDATE None None)"
    "bCh (finish s1) = map2 clone L L'"
    using s1 b by (simp_all add: finish_def)
  ultimately show ?thesis by blast
qed


theorem diff_unchanged_witness:
  "list_all2 same
     [createVnode (Host ''li'') [] JNull None, createVnode (Host ''p'') [] (JStr ''k'') None]
     [createVnode (Host ''li'') [] JNull None, createVnode (Host ''p'') [] (JStr ''k'') None] \<and>
   (\<exists>s. diff [createVnode (Host ''li'') [] JNull None, createVnode (Host ''p'') [] (JStr ''k'') None]
              [createVnode (Host ''li'') [] JNull None, createVnode (Host ''p'') [] (JStr ''k'') None] = Inr s \<and>
        removed s = [] \<and> actions s = [Action UPDATE None None, Action UPDATE None None])"
  using diff_unchanged [of "[createVnode (Host ''li'') [] JNull None, createVnode (Host ''p'') [] (JStr ''k'') None]"
      "[createVnode (Host ''li'') [] JNull None, createVnode (Host ''p'') [] (JStr ''k'') None]"]
  by (auto simp: same_def createVnode_def)

lemmas diff_eval = diff_def and_then_def diff_init_def tail_phase.simps head_phase.simps
  index_phase_def index_a.simps index_b.simps middle_phase.simps middle_step_def at_def
  same_def createVnode_def clone_def finish_def Let_def remove_step_def insert_step_def
  update_step_def move_step_def obj_get_def obj_set_def object_prototype_names_def

lemma tail_phase_actions:
  "tail_phase s = Inr s' \<Longrightarrow> actions s' = actions s"
proof (induction s rule: tail_phase.induct)
  case (1 s)
  from "1.prems" show ?case
    by (subst (asm) tail_phase.simps)
      (auto split: if_splits option.splits dest!: "1.IH" [rotated -1])
qed

lemma head_phase_appends:
  "head_phase s = Inr s' \<Longrightarrow> temp s' = temp s \<and> (\<exists>hd. actions s' = actions s @ hd)"
proof (induction s rule: head_phase.induct)
  case (1 s)
  from "1.prems" show ?case
    by (subst (asm) head_phase.simps)
      (auto split: if_splits option.splits dest!: "1.IH" [rotated -1])
qed

lemma index_phase_keeps:
  "index_phase s = Inr s' \<Longrightarrow> temp s' = temp s \<and> actions s' = actions s"
  by (auto simp: index_phase_def split: sum.splits)

lemma middle_step_appends:
  "middle_step s = Next s' \<Longrightarrow> temp s' = temp s \<and> (\<exists>x. actions s' = actions s @ x)"
  by (auto simp: middle_step_def Let_def remove_step_def insert_step_def update_step_def
      move_step_def split: if_splits option.splits sum.splits found.splits)

lemma middle_phase_appends:
  "middle_phase s = Inr s' \<Longrightarrow> temp s' = temp s \<and> (\<exists>mid. actions s' = actions s @ mid)"
proof (induction s rule: middle_phase.induct)
  case (1 s)
  show ?case
  proof (cases "middle_step s")
    case Done
    with "1.prems" show ?thesis by (subst (asm) middle_phase.simps) simp
  next
    case (Next s1)
    with "1.prems" have "middle_phase s1 = Inr s'" by (subst (asm) middle_phase.simps) simp
    from "1.IH" [OF Next this] middle_step_appends [OF Next] show ?thesis by auto
  next
    case (Throw e)
    with "1.prems" show ?thesis by (subst (asm) middle_phase.simps) simp
  qed
qed

text \<open>
  C3. Whenever \<open>diff\<close> returns, the array it returns is the actions of the head-match
  phase (the tail-match phase pushes none), followed by the actions the middle pass
  appended, followed by the actions of the tail-match phase in reverse order of
  collection.
\<close>

theorem diff_concatenation:
  assumes "diff a b = Inr s"
  shows "\<exists>s1 s2 s3 s4 mid.
           tail_phase (diff_init a b) = Inr s1 \<and> head_phase s1 = Inr s2 \<and>
           index_phase s2 = Inr s3 \<and> middle_phase s3 = Inr s4 \<and>
           actions s1 = [] \<and> actions s3 = actions s2 \<and> actions s4 = actions s2 @ mid \<and>
           temp s4 = temp s1 \<and>
           actions s = actions s2 @ mid @ rev (temp s1)"
proof -
  from assms obtain s1 s2 s3 s4 where p:
    "tail_phase (diff_init a b) = Inr s1" "head_phase s1 = Inr s2"
    "index_phase s2 = Inr s3" "middle_phase s3 = Inr s4" "s = finish s4"
    by (auto simp: diff_def and_then_def split: sum.splits)
  have a1: "actions s1 = []"
    using tail_phase_actions [OF p(1)] by (simp add: diff_init_def)
  have t2: "temp s2 = temp s1" using head_phase_appends [OF p(2)] by simp
  have k3: "temp s3 = temp s2" "actions s3 = actions s2" using index_phase_keeps [OF p(3)] by simp_all
  from middle_phase_appends [OF p(4)] obtain mid where
    m: "temp s4 = temp s3" "actions s4 = actions s3 @ mid" by blast
  have "actions s = actions s2 @ mid @ rev (temp s1)"
    using p(5) m k3 t2 by (simp add: finish_def)
  with p a1 k3 m t2 show ?thesis by force
qed


theorem diff_concatenation_witness:
  "\<exists>s s1 s2 s3 s4 mid.
     diff [createVnode (Host ''h1'') [] JNull None, createVnode (Host ''p'') [] JNull None]
          [createVnode (Host ''h1'') [] JNull None, createVnode (Host ''b'') [] JNull None,
           createVnode (Host ''p'') [] JNull None] = Inr s \<and>
     tail_phase (diff_init [createVnode (Host ''h1'') [] JNull None, createVnode (Host ''p'') [] JNull None]
          [createVnode (Host ''h1'') [] JNull None, createVnode (Host ''b'') [] JNull None,
           createVnode (Host ''p'') [] JNull None]) = Inr s1 \<and>
     head_phase s1 = Inr s2 \<and> index_phase s2 = Inr s3 \<and> middle_phase s3 = Inr s4 \<and>
     temp s1 = [Action UPDATE None None] \<and>
     actions s2 = [Action UPDATE None None] \<and>
     actions s4 = actions s2 @ mid \<and>
     actions s = actions s2 @ mid @ rev (temp s1) \<and>
     actions s = [Action UPDATE None None,
                  Action INSERT (Some (createVnode (Host ''b'') [] JNull None))
                    (Some (createVnode (Host ''p'') [] JNull None)),
                  Action UPDATE None None]"
proof -
  let ?a = "[createVnode (Host ''h1'') [] JNull None, createVnode (Host ''p'') [] JNull None]"
  let ?b = "[createVnode (Host ''h1'') [] JNull None, createVnode (Host ''b'') [] JNull None,
           createVnode (Host ''p'') [] JNull None]"
  obtain s where s: "diff ?a ?b = Inr s" "actions s = [Action UPDATE None None,
                  Action INSERT (Some (createVnode (Host ''b'') [] JNull None))
                    (Some (createVnode (Host ''p'') [] JNull None)),
                  Action UPDATE None None]"
    by (simp add: diff_eval)
  from diff_concatenation [OF s(1)] obtain s1 s2 s3 s4 mid where c:
    "tail_phase (diff_init ?a ?b) = Inr s1" "head_phase s1 = Inr s2"
    "index_phase s2 = Inr s3" "middle_phase s3 = Inr s4"
    "actions s4 = actions s2 @ mid" "actions s = actions s2 @ mid @ rev (temp s1)"
    by blast
  have t: "temp s1 = [Action UPDATE None None]"
    using c(1) by (auto simp: diff_eval)
  have h: "actions s2 = [Action UPDATE None None]"
    using c(1,2) by (auto simp: diff_eval)
  from s c t h show ?thesis by blast
qed


lemma key_clone [simp]: "key (clone a b) = key b"
  by (simp add: clone_def)




















section \<open>Properties of removal\<close>

lemma filter_refer [simp]: "filter is_RemoveChild (refer r x) = []"
  by (auto simp: refer_def split: option.splits ref.splits)

lemma filter_cleanups [simp]: "filter is_RemoveChild (cleanups es) = []"
  by (induction es) (auto simp: cleanups_def split: option.splits)

lemma filter_kidsRefer_list [simp]: "filter is_RemoveChild (kidsRefer_list ks) = []"
  by (induction ks rule: kidsRefer_list.induct) (auto split: option.splits)



lemma then_events_Inr [simp]: "then_events (Inr xs) (Inr ys) = Inr (xs @ ys)"
  by (simp add: then_events_def)

lemma subtree_self: "f \<in> set (subtree f)"
  by (cases f) simp







section \<open>Properties of the scheduler\<close>

lemma dirty_set_dirty [simp]: "dirty (set_dirty b f) = b"
  by (cases f) (simp add: set_dirty_def)

text \<open>
  C7. \<^verbatim>\<open>update\<close> on a dirty fiber changes neither the fiber nor the scheduler; on a
  fiber that is not dirty it marks the fiber dirty and appends exactly one task, the
  reconciliation of that fiber, to the work queue; and a second call right after the
  first changes nothing more.
\<close>

theorem update_idempotent:
  "(dirty f \<longrightarrow> update f st = (f, st)) \<and>
   (\<not> dirty f \<longrightarrow>
      fst (update f st) = set_dirty True f \<and> dirty (fst (update f st)) \<and>
      queue (snd (update f st)) = queue st @ [\<lparr>callback = Some (ReconcileCb (set_dirty True f))\<rparr>]) \<and>
   update (fst (update f st)) (snd (update f st)) = update f st"
  by (simp add: update_def schedule_def startTransition_def Let_def)

theorem update_idempotent_witness:
  "\<not> dirty (createVnode (Host ''div'') [] JNull None) \<and>
   queue (snd (update (createVnode (Host ''div'') [] JNull None)
                 (scheduler_init \<lparr>has_queueMicrotask = True, has_MessageChannel = True\<rparr>)))
     = [\<lparr>callback = Some (ReconcileCb (set_dirty True (createVnode (Host ''div'') [] JNull None)))\<rparr>] \<and>
   length (queue (snd (update
       (fst (update (createVnode (Host ''div'') [] JNull None)
                 (scheduler_init \<lparr>has_queueMicrotask = True, has_MessageChannel = True\<rparr>)))
       (snd (update (createVnode (Host ''div'') [] JNull None)
                 (scheduler_init \<lparr>has_queueMicrotask = True, has_MessageChannel = True\<rparr>)))))) = 1"
  using update_idempotent [of "createVnode (Host ''div'') [] JNull None"
      "scheduler_init \<lparr>has_queueMicrotask = True, has_MessageChannel = True\<rparr>"]
  by (simp add: createVnode_def scheduler_init_def update_def schedule_def startTransition_def
      set_dirty_def Let_def)

text \<open>
  C8, as the code has it. \<^verbatim>\<open>startTransition\<close> appends the callback to \<^verbatim>\<open>transitions\<close> and
  calls \<^verbatim>\<open>translate\<close> on every push (the length \<^verbatim>\<open>push\<close> returns is never 0), so each push
  asks the host for one more call of the dispatch; a call of the dispatch takes the
  oldest callback off \<^verbatim>\<open>transitions\<close>, calls it and nothing else, and does nothing on an
  empty queue. In the counterexample below two pushes in a row, with no dispatch in
  between, leave two dispatches posted.
\<close>

theorem startTransition_dispatch:
  "transitions (startTransition cb st) = transitions st @ [cb] \<and>
   posted (startTransition cb st) = posted st @ [translate st] \<and>
   queue (startTransition cb st) = queue st \<and>
   translate (startTransition cb st) = translate st \<and>
   dispatch (st\<lparr>transitions := c # cs\<rparr>) = ([c], st\<lparr>transitions := cs\<rparr>) \<and>
   dispatch (st\<lparr>transitions := []\<rparr>) = ([], st\<lparr>transitions := []\<rparr>)"
  by (simp add: startTransition_def dispatch_def Let_def)

theorem startTransition_counterexample:
  "posted (startTransition (Callback 2) (startTransition (Callback 1)
      (scheduler_init \<lparr>has_queueMicrotask = True, has_MessageChannel = True\<rparr>)))
   = [Microtask, Microtask]"
  by (simp add: startTransition_def scheduler_init_def task_def Let_def)


section \<open>Properties of capture and commit\<close>


lemma type_set_isComp [simp]: "type (set_isComp b f) = type f"
  and alternate_set_isComp [simp]: "alternate (set_isComp b f) = alternate f"
  and props_set_isComp [simp]: "props (set_isComp b f) = props f"
  and isComp_set_isComp [simp]: "isComp (set_isComp b f) = b"
  and node_set_isComp [simp]: "node (set_isComp b f) = node f"
  by (cases f; simp add: set_isComp_def)+

lemma type_set_memo [simp]: "type (set_memo b f) = type f"
  and props_set_memo [simp]: "props (set_memo b f) = props f"
  and node_set_memo [simp]: "node (set_memo b f) = node f"
  and memo_set_memo [simp]: "memo (set_memo b f) = b"
  by (cases f; simp add: set_memo_def)+

lemma type_set_node [simp]: "type (set_node x f) = type f"
  and props_set_node [simp]: "props (set_node x f) = props f"
  by (cases f; simp add: set_node_def)+

lemma log_reconcileChidren:
  "set (log w) \<subseteq> set (log (fst (reconcileChidren w f cs)))"
  by (auto simp: reconcileChidren_def emit_def Let_def split: sum.splits list.splits)

lemma log_fragment: "set (log w) \<subseteq> set (log (snd (fragment w f)))"
  by (auto simp: fragment_def emit_def Let_def split: prod.splits)

lemma updateHook_renders:
  "type f = Comp c \<Longrightarrow> Render c (props f) \<in> set (log (fst (updateHook invoke w f)))"
proof -
  assume c: "type f = Comp c"
  obtain f1 w2 where a: "(case node f of Some n \<Rightarrow> (f, emit [ResetCursor] w)
        | None \<Rightarrow> (let (n, w') = fragment (emit [ResetCursor] w) f in (set_node (Some n) f, w'))) = (f1, w2)"
    by fastforce
  then have f1: "type f1 = type f" "props f1 = props f"
    by (auto split: option.splits prod.splits)
  obtain out hs where i: "invoke f1 = (out, hs)" by fastforce
  have "updateHook invoke w f =
      reconcileChidren (emit [Render c (props f)] w2) (set_hooks hs f1) (arrayfy (simpleVnode out))"
    using a i f1 c by (simp add: updateHook_def Let_def)
  moreover have "Render c (props f) \<in> set (log (emit [Render c (props f)] w2))"
    by (simp add: emit_def)
  ultimately show ?thesis using log_reconcileChidren by fastforce
qed

lemma log_descend [simp]: "fst (descend r) = fst r"
  by (auto simp: descend_def split: prod.splits sum.splits)

text \<open>
  C10. For a fiber without an alternate, or whose alternate has no props, \<open>isMemo\<close> returns
  false; and when the fiber is a component, \<open>capture\<close> calls its function (the call is in
  the log whether or not the diff of the children then succeeds), whatever its \<^verbatim>\<open>memo\<close>
  flag and its comparator.
\<close>

theorem isMemo_first_render:
  assumes "alternate f = None \<or> (\<exists>a. alternate f = Some a \<and> props a = None)"
  shows "isMemo f = Inr False \<and>
         (\<forall>c. type f = Comp c \<longrightarrow> Render c (props f) \<in> set (log (fst (capture invoke w f))))"
proof
  show m: "isMemo f = Inr False"
    using assms by (auto simp: isMemo_def)
  show "\<forall>c. type f = Comp c \<longrightarrow> Render c (props f) \<in> set (log (fst (capture invoke w f)))"
  proof (intro allI impI)
    fix c assume c: "type f = Comp c"
    let ?f = "set_isComp True f"
    have "isMemo ?f = Inr False"
      using assms by (auto simp: isMemo_def)
    then have "capture invoke w f = descend (updateHook invoke w (if memo ?f then set_memo False ?f else ?f))"
      using c by (simp add: capture_def Let_def)
    moreover have "Render c (props f) \<in> set (log (fst (updateHook invoke w (if memo ?f then set_memo False ?f else ?f))))"
    proof (cases "memo ?f")
      case True
      with updateHook_renders [of "set_memo False ?f" c invoke w] c show ?thesis by simp
    next
      case False
      with updateHook_renders [of ?f c invoke w] c show ?thesis by simp
    qed
    ultimately show "Render c (props f) \<in> set (log (fst (capture invoke w f)))" by simp
  qed
qed


theorem isMemo_first_render_witness:
  "alternate (createVnode (Comp (FC 1 True None)) [] JNull None) = None \<and>
   isMemo (createVnode (Comp (FC 1 True None)) [] JNull None) = Inr False \<and>
   Render (FC 1 True None) (Some [])
     \<in> set (log (fst (capture render_nothing empty_world (createVnode (Comp (FC 1 True None)) [] JNull None))))"
  using isMemo_first_render [of "createVnode (Comp (FC 1 True None)) [] JNull None" render_nothing empty_world]
  by (simp add: createVnode_def)














end
